theory Spec2Isabelle
  imports Main "HOL-Library.Word"
begin

unbundle bit_operations_syntax

section \<open>Attribute references (Attribute/AttributeID.h)\<close>

text \<open>
  An \<open>AttributeID\<close> wraps one \<open>uint32_t\<close>: the two low bits are the kind tag, the
  remaining bits are an offset (\<open>data::ptr\<close>) into arena storage.
\<close>

datatype AttributeID = AttributeID (raw_value: "32 word")

definition KindMask :: "32 word" where
  "KindMask = 0x3"

text \<open>
  \<open>enum Kind : uint32_t\<close>: an enumeration with a fixed underlying type, so a \<open>Kind\<close>
  is a 32-bit value and the three enumerators are constants of that type.
\<close>

type_synonym Kind = "32 word"

definition Direct :: Kind where
  "Direct = 0"

definition Indirect :: Kind where
  "Indirect = push_bit 0 1"

definition NilAttribute :: Kind where
  "NilAttribute = push_bit 1 1"

text \<open>The two public constructors tag a \<open>data::ptr\<close> (a 32-bit offset) with its kind.\<close>

definition from_node :: "32 word \<Rightarrow> AttributeID" where
  "from_node node = AttributeID (node OR Direct)"

definition from_indirect_node :: "32 word \<Rightarrow> AttributeID" where
  "from_indirect_node indirect_node = AttributeID (indirect_node OR Indirect)"

definition make_nil :: AttributeID where
  "make_nil = AttributeID NilAttribute"

definition operator_bool :: "AttributeID \<Rightarrow> bool" where
  "operator_bool a = (raw_value a = 0)"

definition kind :: "AttributeID \<Rightarrow> Kind" where
  "kind a = raw_value a AND KindMask"

definition with_kind :: "AttributeID \<Rightarrow> Kind \<Rightarrow> AttributeID" where
  "with_kind a k = AttributeID ((raw_value a AND NOT KindMask) OR k)"

definition is_direct :: "AttributeID \<Rightarrow> bool" where
  "is_direct a = (kind a = Direct)"

definition is_indirect :: "AttributeID \<Rightarrow> bool" where
  "is_indirect a = (kind a = Indirect)"

definition is_nil :: "AttributeID \<Rightarrow> bool" where
  "is_nil a = (kind a = NilAttribute)"

text \<open>
  \<open>to_node\<close> and \<open>to_indirect_node\<close> assert the kind and then dereference the
  offset \<open>_value & ~KindMask\<close>. The node storage itself is outside this file, so the
  model returns the offset that is dereferenced, or the failed assertion.
\<close>

datatype attribute_fault = Assertion_failed

definition to_node :: "AttributeID \<Rightarrow> attribute_fault + 32 word" where
  "to_node a = (if is_direct a then Inr (raw_value a AND NOT KindMask) else Inl Assertion_failed)"

definition to_indirect_node :: "AttributeID \<Rightarrow> attribute_fault + 32 word" where
  "to_indirect_node a =
     (if is_indirect a then Inr (raw_value a AND NOT KindMask) else Inl Assertion_failed)"

section \<open>The associative table (Util/HashTable.cpp)\<close>

subsection \<open>Hashing and comparing keys\<close>

text \<open>
  Keys and values are \<open>void *\<close>: 64-bit words, with 0 for \<open>nullptr\<close>. The arithmetic
  of \<open>pointer_hash\<close> is on \<open>int64_t\<close>, so \<open>>>\<close> is the arithmetic shift.
\<close>

definition pointer_hash :: "64 word \<Rightarrow> 64 word" where
  "pointer_hash pointer =
     (let result = (-1 XOR push_bit 0x20 pointer) + pointer;
          result = result XOR signed_drop_bit 0x16 result;
          result = result + (-1 XOR push_bit 0xd result);
          result = (result XOR signed_drop_bit 8 result) * 9;
          result = result XOR signed_drop_bit 0xf result;
          result = result + (-1 XOR push_bit 0x1b result)
      in result XOR signed_drop_bit 0x1f result)"

definition pointer_compare :: "64 word \<Rightarrow> 64 word \<Rightarrow> bool" where
  "pointer_compare a b = (a = b)"

text \<open>
  The constructor compares the equality function it is given with the address of
  \<open>pointer_compare\<close>, so an equality function is either that function or another one.
\<close>

datatype key_equal = Pointer_compare | Custom_compare "64 word \<Rightarrow> 64 word \<Rightarrow> bool"

fun call_compare :: "key_equal \<Rightarrow> 64 word \<Rightarrow> 64 word \<Rightarrow> bool" where
  "call_compare Pointer_compare a b = pointer_compare a b"
| "call_compare (Custom_compare f) a b = f a b"

subsection \<open>Nodes, arena and table state\<close>

text \<open>
  A \<open>HashNode *\<close> is \<open>None\<close> for \<open>nullptr\<close> or the address of a node; node memory is
  a store from addresses to nodes.
\<close>

record HashNode =
  node_next :: "nat option"
  node_key :: "64 word"
  node_value :: "64 word"
  node_hash_value :: "64 word"

text \<open>
  Modelled from the spec: \<open>Heap\<close> (Heap.h) is not part of the sources. The arena
  "hands out raw memory blocks"; here each call of \<open>alloc_\<close> returns the address of a
  block that no earlier call returned.
\<close>

record Heap =
  heap_top :: nat

definition new_Heap :: Heap where
  "new_Heap = \<lparr>heap_top = 0\<rparr>"

definition Heap_alloc :: "Heap \<Rightarrow> nat \<times> Heap" where
  "Heap_alloc h = (heap_top h, h\<lparr>heap_top := heap_top h + 1\<rparr>)"

text \<open>
  Callbacks are function pointers (\<open>None\<close> for \<open>nullptr\<close>, otherwise the address of
  the function); what they do is outside the table, so a call is recorded with its
  arguments, in order.
\<close>

datatype event =
  Key_removed nat "64 word"
| Value_removed nat "64 word"
| Entry_visited nat "64 word" "64 word" "64 word"

text \<open>
  The members of \<open>UntypedTable\<close>, followed by the node memory the table's pointers
  refer to and the callback calls made so far. HashTable.h is not part of the sources:
  \<open>_count\<close> and \<open>_bucket_mask_width\<close> are natural numbers here, \<open>_bucket_mask\<close> is a
  64-bit word as the hash it masks. A bucket array is \<open>None\<close> for \<open>nullptr\<close> or the
  contents of the array by index.
\<close>

record UntypedTable =
  m_hash :: "64 word \<Rightarrow> 64 word"
  m_compare :: key_equal
  m_did_remove_key :: "nat option"
  m_did_remove_value :: "nat option"
  m_heap :: "Heap option"
  m_spare_node :: "nat option"
  m_buckets :: "(nat \<Rightarrow> nat option) option"
  m_count :: nat
  m_bucket_mask :: "64 word"
  m_bucket_mask_width :: nat
  m_is_heap_owner :: bool
  m_compare_by_pointer :: bool
  nodes :: "nat \<Rightarrow> HashNode"
  calls :: "event list"

definition zero_node :: HashNode where
  "zero_node = \<lparr>node_next = None, node_key = 0, node_value = 0, node_hash_value = 0\<rparr>"

definition UntypedTable_default :: UntypedTable where
  "UntypedTable_default =
     \<lparr>m_hash = pointer_hash,
      m_compare = Pointer_compare,
      m_did_remove_key = None,
      m_did_remove_value = None,
      m_heap = None,
      m_spare_node = None,
      m_buckets = None,
      m_count = 0,
      m_bucket_mask = 0,
      m_bucket_mask_width = 0,
      m_is_heap_owner = True,
      m_compare_by_pointer = True,
      nodes = (\<lambda>_. zero_node),
      calls = []\<rparr>"

definition UntypedTable_custom ::
  "(64 word \<Rightarrow> 64 word) option \<Rightarrow> key_equal option \<Rightarrow> nat option \<Rightarrow> nat option \<Rightarrow>
   Heap option \<Rightarrow> UntypedTable" where
  "UntypedTable_custom custom_hash custom_compare did_remove_key did_remove_value heap =
     \<lparr>m_hash = (case custom_hash of Some h \<Rightarrow> h | None \<Rightarrow> pointer_hash),
      m_compare = (case custom_compare of Some c \<Rightarrow> c | None \<Rightarrow> Pointer_compare),
      m_did_remove_key = did_remove_key,
      m_did_remove_value = did_remove_value,
      m_heap = heap,
      m_spare_node = None,
      m_buckets = None,
      m_count = 0,
      m_bucket_mask = 0,
      m_bucket_mask_width = 0,
      m_is_heap_owner = (heap = None),
      m_compare_by_pointer =
        (case custom_compare of
           None \<Rightarrow> True
         | Some Pointer_compare \<Rightarrow> True
         | Some (Custom_compare f) \<Rightarrow> False),
      nodes = (\<lambda>_. zero_node),
      calls = []\<rparr>"

text \<open>
  What an operation can do besides returning: read through a null bucket array, write
  through a null node pointer, reach the end of a \<open>bool\<close> function without a
  \<open>return\<close>, or leave through the exception that \<open>new Bucket[n]\<close> throws for a
  negative \<open>n\<close>; the exception carries the table as it is when it is thrown. An
  operation that does not return at all (a walk along a cyclic chain) has the value
  \<open>None\<close>.
\<close>

datatype fault =
  Null_bucket_array
| Null_node
| Missing_return
| Bad_array_new_length UntypedTable

subsection \<open>Managing buckets\<close>

definition initial_bucket_mask_width :: nat where
  "initial_bucket_mask_width = 4"

text \<open>
  \<open>x << n\<close> on \<open>int\<close>, as the source computes \<open>1 << _bucket_mask_width\<close> and
  \<open>4 << _bucket_mask_width\<close>: the result wraps around to 32 bits in two's complement.
  The source shifts by at most 31.
\<close>

definition shift_left_int :: "int \<Rightarrow> nat \<Rightarrow> int" where
  "shift_left_int x n = (x * 2 ^ n + 2 ^ 31) mod 2 ^ 32 - 2 ^ 31"

definition ensure_heap :: "UntypedTable \<Rightarrow> UntypedTable" where
  "ensure_heap t = (if m_heap t = None then t\<lparr>m_heap := Some new_Heap\<rparr> else t)"

text \<open>
  \<open>_heap->alloc_(size)\<close>. Every call in the source follows the creation of the heap
  when there was none, so the branch for a null heap is never taken.
\<close>

definition heap_alloc :: "UntypedTable \<Rightarrow> nat \<times> UntypedTable" where
  "heap_alloc t =
     (case m_heap t of
        Some h \<Rightarrow> (let (a, h') = Heap_alloc h in (a, t\<lparr>m_heap := Some h'\<rparr>))
      | None \<Rightarrow> (0, t))"

definition create_buckets :: "UntypedTable \<Rightarrow> UntypedTable" where
  "create_buckets t =
     (if m_buckets t = None then
        (let t = t\<lparr>m_bucket_mask_width := initial_bucket_mask_width,
                   m_bucket_mask := push_bit initial_bucket_mask_width 1 - 1\<rparr>;
             t = ensure_heap t;
             (a, t) = heap_alloc t
         in t\<lparr>m_buckets := Some (\<lambda>_. None)\<rparr>)
      else t)"

text \<open>
  The inner loop of \<open>grow_buckets\<close>: the node's \<open>next\<close> is overwritten with the head of
  its new bucket, and the loop then advances along that new \<open>next\<close>. The outer loop
  runs over the indices of the old array.
\<close>

partial_function (option) redistribute_chain ::
  "64 word \<Rightarrow> nat option \<Rightarrow> (nat \<Rightarrow> HashNode) \<Rightarrow> (nat \<Rightarrow> nat option) \<Rightarrow>
   ((nat \<Rightarrow> HashNode) \<times> (nat \<Rightarrow> nat option)) option" where
  "redistribute_chain bucket_mask node mem new_buckets =
     (case node of
        None \<Rightarrow> Some (mem, new_buckets)
      | Some n \<Rightarrow>
          (let new_bucket = unat (bucket_mask AND node_hash_value (mem n));
               mem' = mem(n := (mem n)\<lparr>node_next := new_buckets new_bucket\<rparr>);
               new_buckets' = new_buckets(new_bucket := Some n)
           in redistribute_chain bucket_mask (node_next (mem' n)) mem' new_buckets'))"

declare redistribute_chain.simps [code]

fun redistribute_buckets ::
  "64 word \<Rightarrow> (nat \<Rightarrow> nat option) \<Rightarrow> nat list \<Rightarrow> (nat \<Rightarrow> HashNode) \<Rightarrow>
   (nat \<Rightarrow> nat option) \<Rightarrow> ((nat \<Rightarrow> HashNode) \<times> (nat \<Rightarrow> nat option)) option" where
  "redistribute_buckets bucket_mask old_buckets [] mem new_buckets = Some (mem, new_buckets)"
| "redistribute_buckets bucket_mask old_buckets (i # is) mem new_buckets =
     (case redistribute_chain bucket_mask (old_buckets i) mem new_buckets of
        None \<Rightarrow> None
      | Some (mem', new_buckets') \<Rightarrow>
          redistribute_buckets bucket_mask old_buckets is mem' new_buckets')"

text \<open>
  \<open>grow_buckets\<close> writes the new width first. The length of the new array is the
  \<open>int\<close> \<open>1 << _bucket_mask_width\<close>: for the new width 31 it is negative and
  \<open>new Bucket[...]\<close> throws, before the mask and the array are touched. The arena
  serves old widths below 4 only. A new array is never null, so the test
  \<open>if (new_buckets)\<close> is always taken; there \<open>(1 << _bucket_mask_width) - 1\<close> is
  computed for widths up to 30 and fits.
\<close>

definition grow_buckets :: "UntypedTable \<Rightarrow> (fault + UntypedTable) option" where
  "grow_buckets t =
     (if m_bucket_mask_width t > 0x1E then Some (Inr t)
      else
        (let old_width = m_bucket_mask_width t;
             t = t\<lparr>m_bucket_mask_width := old_width + 1\<rparr>;
             old_buckets = m_buckets t
         in if old_width \<ge> initial_bucket_mask_width \<and>
               shift_left_int 1 (m_bucket_mask_width t) < 0
            then Some (Inl (Bad_array_new_length t))
            else
              (let t = (if old_width \<ge> initial_bucket_mask_width then t
                        else snd (heap_alloc (ensure_heap t)));
                   new_buckets = (\<lambda>_. None);
                   t = t\<lparr>m_bucket_mask := push_bit (m_bucket_mask_width t) 1 - 1\<rparr>
               in case old_buckets of
                    None \<Rightarrow> Some (Inl Null_bucket_array)
                  | Some old \<Rightarrow>
                      (case redistribute_buckets (m_bucket_mask t) old [0..<2 ^ old_width]
                              (nodes t) new_buckets of
                         None \<Rightarrow> None
                       | Some (mem', new_buckets') \<Rightarrow>
                           Some (Inr (t\<lparr>nodes := mem', m_buckets := Some new_buckets'\<rparr>))))))"

subsection \<open>Lookup\<close>

text \<open>
  \<open>lookup\<close> returns the value and, when \<open>found_key_out\<close> is not null, stores a key
  through it: the second component is what was stored (\<open>None\<close> when nothing was
  requested).
\<close>

definition lookup_not_found :: "bool \<Rightarrow> 64 word \<times> 64 word option" where
  "lookup_not_found found_key_out = (0, if found_key_out then Some 0 else None)"

definition lookup_found :: "HashNode \<Rightarrow> bool \<Rightarrow> 64 word \<times> 64 word option" where
  "lookup_found node found_key_out =
     (node_value node, if found_key_out then Some (node_key node) else None)"

text \<open>
  The two chain walks of \<open>lookup\<close>, up to the node at which the source returns
  (\<open>Some (Some node)\<close>) or the end of the chain (\<open>Some None\<close>).
\<close>

partial_function (option) lookup_by_pointer ::
  "(nat \<Rightarrow> HashNode) \<Rightarrow> 64 word \<Rightarrow> nat option \<Rightarrow> HashNode option option" where
  "lookup_by_pointer mem key node =
     (case node of
        None \<Rightarrow> Some None
      | Some n \<Rightarrow>
          if node_key (mem n) = key then Some (Some (mem n))
          else lookup_by_pointer mem key (node_next (mem n)))"

declare lookup_by_pointer.simps [code]

partial_function (option) lookup_by_compare ::
  "(nat \<Rightarrow> HashNode) \<Rightarrow> key_equal \<Rightarrow> 64 word \<Rightarrow> 64 word \<Rightarrow> nat option \<Rightarrow>
   HashNode option option" where
  "lookup_by_compare mem cmp hash_value key node =
     (case node of
        None \<Rightarrow> Some None
      | Some n \<Rightarrow>
          if node_hash_value (mem n) = hash_value \<and> call_compare cmp (node_key (mem n)) key
          then Some (Some (mem n))
          else lookup_by_compare mem cmp hash_value key (node_next (mem n)))"

declare lookup_by_compare.simps [code]

definition lookup_result :: "bool \<Rightarrow> HashNode option \<Rightarrow> 64 word \<times> 64 word option" where
  "lookup_result found_key_out r =
     (case r of
        Some node \<Rightarrow> lookup_found node found_key_out
      | None \<Rightarrow> lookup_not_found found_key_out)"

definition lookup ::
  "UntypedTable \<Rightarrow> 64 word \<Rightarrow> bool \<Rightarrow> (fault + 64 word \<times> 64 word option) option" where
  "lookup t key found_key_out =
     (if m_count t \<noteq> 0 then
        (case m_buckets t of
           None \<Rightarrow> Some (Inl Null_bucket_array)
         | Some buckets \<Rightarrow>
             (let hash_value = m_hash t key;
                  node = buckets (unat (m_bucket_mask t AND hash_value))
              in map_option (\<lambda>r. Inr (lookup_result found_key_out r))
                   (if m_compare_by_pointer t
                    then lookup_by_pointer (nodes t) key node
                    else lookup_by_compare (nodes t) (m_compare t) hash_value key node)))
      else Some (Inr (lookup_not_found found_key_out)))"

subsection \<open>Modifying entries\<close>

definition notify_removed :: "UntypedTable \<Rightarrow> nat \<Rightarrow> UntypedTable" where
  "notify_removed t n =
     (let t = (case m_did_remove_key t of
                 Some f \<Rightarrow> t\<lparr>calls := calls t @ [Key_removed f (node_key (nodes t n))]\<rparr>
               | None \<Rightarrow> t)
      in case m_did_remove_value t of
           Some f \<Rightarrow> t\<lparr>calls := calls t @ [Value_removed f (node_value (nodes t n))]\<rparr>
         | None \<Rightarrow> t)"

text \<open>
  The first loop of \<open>insert\<close>: \<open>Some (Some t')\<close> when a matching node was replaced (the
  function returns \<open>false\<close> there), \<open>Some None\<close> when the chain ended without a match.
\<close>

partial_function (option) insert_replace ::
  "UntypedTable \<Rightarrow> 64 word \<Rightarrow> 64 word \<Rightarrow> 64 word \<Rightarrow> nat option \<Rightarrow> UntypedTable option option"
  where
  "insert_replace t key val hash_value node =
     (case node of
        None \<Rightarrow> Some None
      | Some n \<Rightarrow>
          if node_hash_value (nodes t n) = hash_value \<and>
             call_compare (m_compare t) (node_key (nodes t n)) key
          then (let t = notify_removed t n
                in Some (Some (t\<lparr>nodes := (nodes t)
                                  (n := (nodes t n)\<lparr>node_key := key, node_value := val\<rparr>)\<rparr>)))
          else insert_replace t key val hash_value (node_next (nodes t n)))"

declare insert_replace.simps [code]

text \<open>
  The growth test \<open>_count + 1 > 4 << _bucket_mask_width\<close> compares the count with an
  \<open>int\<close>: \<open>4 << w\<close> is \<open>4 * 2 ^ w\<close> for widths up to 28, the most negative \<open>int\<close>
  for width 29 and 0 from width 30 on. HashTable.h is not part of the sources;
  \<open>_count\<close> is taken to be an unsigned 64-bit member, as the mask is, so the \<open>int\<close> is
  converted to 64 unsigned bits for the comparison. Only at width 29 does the outcome
  depend on that choice.
\<close>

definition growth_threshold :: "nat \<Rightarrow> nat" where
  "growth_threshold width = nat (shift_left_int 4 width mod 2 ^ 64)"

definition insert_new ::
  "UntypedTable \<Rightarrow> 64 word \<Rightarrow> 64 word \<Rightarrow> 64 word \<Rightarrow> (fault + bool \<times> UntypedTable) option"
  where
  "insert_new t key val hash_value =
     (case (if m_count t + 1 > growth_threshold (m_bucket_mask_width t) then grow_buckets t
            else Some (Inr t)) of
        None \<Rightarrow> None
      | Some (Inl e) \<Rightarrow> Some (Inl e)
      | Some (Inr t) \<Rightarrow>
          (let t = ensure_heap t;
               (inserted_node, t) =
                 (case m_spare_node t of
                    Some s \<Rightarrow> (s, t\<lparr>m_spare_node := node_next (nodes t s)\<rparr>)
                  | None \<Rightarrow> heap_alloc t)
           in case m_buckets t of
                None \<Rightarrow> Some (Inl Null_bucket_array)
              | Some buckets \<Rightarrow>
                  (let bucket = unat (m_bucket_mask t AND hash_value);
                       new_node = \<lparr>node_next = buckets bucket, node_key = key,
                                   node_value = val, node_hash_value = hash_value\<rparr>
                   in Some (Inr (True,
                        t\<lparr>nodes := (nodes t)(inserted_node := new_node),
                          m_buckets := Some (buckets(bucket := Some inserted_node)),
                          m_count := m_count t + 1\<rparr>)))))"

definition insert ::
  "UntypedTable \<Rightarrow> 64 word \<Rightarrow> 64 word \<Rightarrow> (fault + bool \<times> UntypedTable) option" where
  "insert t key val =
     (let t = (if m_buckets t = None then create_buckets t else t);
          hash_value = m_hash t key
      in case m_buckets t of
           None \<Rightarrow> Some (Inl Null_bucket_array)
         | Some buckets \<Rightarrow>
             (case insert_replace t key val hash_value
                     (buckets (unat (hash_value AND m_bucket_mask t))) of
                None \<Rightarrow> None
              | Some (Some t') \<Rightarrow> Some (Inr (False, t'))
              | Some None \<Rightarrow> insert_new t key val hash_value))"

text \<open>
  What both removal loops do at a match: \<open>node\<close> is the trailing pointer, \<open>candidate\<close>
  the matching node. The loops start with \<open>candidate = node\<close>, the head of the bucket.
\<close>

definition unlink :: "UntypedTable \<Rightarrow> nat option \<Rightarrow> nat \<Rightarrow> fault + bool \<times> UntypedTable" where
  "unlink t node candidate =
     (case node of
        None \<Rightarrow> Inl Null_node
      | Some n \<Rightarrow>
          (let t = t\<lparr>nodes := (nodes t)
                       (n := (nodes t n)\<lparr>node_next := node_next (nodes t candidate)\<rparr>)\<rparr>;
               t = notify_removed t candidate;
               t = t\<lparr>nodes := (nodes t)
                       (candidate := (nodes t candidate)\<lparr>node_next := m_spare_node t\<rparr>)\<rparr>;
               t = t\<lparr>m_spare_node := Some candidate\<rparr>;
               t = t\<lparr>m_count := m_count t - 1\<rparr>
           in Inr (True, t)))"

partial_function (option) remove_by_compare ::
  "UntypedTable \<Rightarrow> 64 word \<Rightarrow> 64 word \<Rightarrow> nat option \<Rightarrow> nat option \<Rightarrow>
   (fault + bool \<times> UntypedTable) option" where
  "remove_by_compare t key hash_value candidate node =
     (case candidate of
        None \<Rightarrow> Some (Inr (False, t))
      | Some c \<Rightarrow>
          if node_hash_value (nodes t c) = hash_value \<and>
             call_compare (m_compare t) (node_key (nodes t c)) key
          then Some (unlink t node c)
          else remove_by_compare t key hash_value (node_next (nodes t c)) (Some c))"

declare remove_by_compare.simps [code]

text \<open>The loop of \<open>remove_ptr\<close>; no \<open>return\<close> follows it in the source.\<close>

partial_function (option) remove_by_pointer ::
  "UntypedTable \<Rightarrow> 64 word \<Rightarrow> nat option \<Rightarrow> nat option \<Rightarrow>
   (fault + bool \<times> UntypedTable) option" where
  "remove_by_pointer t key candidate node =
     (case candidate of
        None \<Rightarrow> Some (Inl Missing_return)
      | Some c \<Rightarrow>
          if node_key (nodes t c) = key
          then Some (unlink t node c)
          else remove_by_pointer t key (node_next (nodes t c)) (Some c))"

declare remove_by_pointer.simps [code]

definition remove_ptr :: "UntypedTable \<Rightarrow> 64 word \<Rightarrow> (fault + bool \<times> UntypedTable) option"
  where
  "remove_ptr t key =
     (if m_count t = 0 then Some (Inr (False, t))
      else
        (case m_buckets t of
           None \<Rightarrow> Some (Inl Null_bucket_array)
         | Some buckets \<Rightarrow>
             (let node = buckets (unat (m_bucket_mask t AND m_hash t key))
              in remove_by_pointer t key node node)))"

definition remove :: "UntypedTable \<Rightarrow> 64 word \<Rightarrow> (fault + bool \<times> UntypedTable) option" where
  "remove t key =
     (if m_count t = 0 then Some (Inr (False, t))
      else if m_compare_by_pointer t then remove_ptr t key
      else
        (case m_buckets t of
           None \<Rightarrow> Some (Inl Null_bucket_array)
         | Some buckets \<Rightarrow>
             (let hash_value = m_hash t key;
                  node = buckets (unat (m_bucket_mask t AND hash_value))
              in remove_by_compare t key hash_value node node)))"

subsection \<open>Iteration\<close>

partial_function (option) for_each_chain ::
  "(nat \<Rightarrow> HashNode) \<Rightarrow> nat \<Rightarrow> 64 word \<Rightarrow> nat option \<Rightarrow> event list \<Rightarrow> event list option"
  where
  "for_each_chain mem body context node log =
     (case node of
        None \<Rightarrow> Some log
      | Some n \<Rightarrow>
          for_each_chain mem body context (node_next (mem n))
            (log @ [Entry_visited body (node_key (mem n)) (node_value (mem n)) context]))"

declare for_each_chain.simps [code]

fun for_each_buckets ::
  "(nat \<Rightarrow> HashNode) \<Rightarrow> nat \<Rightarrow> 64 word \<Rightarrow> (nat \<Rightarrow> nat option) \<Rightarrow> nat list \<Rightarrow> event list \<Rightarrow>
   event list option" where
  "for_each_buckets mem body context buckets [] log = Some log"
| "for_each_buckets mem body context buckets (i # is) log =
     (case for_each_chain mem body context (buckets i) log of
        None \<Rightarrow> None
      | Some log' \<Rightarrow> for_each_buckets mem body context buckets is log')"

definition for_each :: "UntypedTable \<Rightarrow> nat \<Rightarrow> 64 word \<Rightarrow> (fault + UntypedTable) option" where
  "for_each t body context =
     (if m_count t \<noteq> 0 then
        (case m_buckets t of
           None \<Rightarrow> Some (Inl Null_bucket_array)
         | Some buckets \<Rightarrow>
             (case for_each_buckets (nodes t) body context buckets
                     [0..<2 ^ m_bucket_mask_width t] (calls t) of
                None \<Rightarrow> None
              | Some log \<Rightarrow> Some (Inr (t\<lparr>calls := log\<rparr>))))
      else Some (Inr t))"

subsection \<open>Sequences of operations\<close>

datatype operation =
  Lookup "64 word" bool
| Insert "64 word" "64 word"
| Remove "64 word"
| For_each nat "64 word"

datatype observation =
  Looked_up "64 word" "64 word option"
| Inserted bool
| Removed bool
| Visited

fun step :: "UntypedTable \<Rightarrow> operation \<Rightarrow> (fault + observation \<times> UntypedTable) option" where
  "step t (Lookup key found_key_out) =
     (case lookup t key found_key_out of
        None \<Rightarrow> None
      | Some (Inl e) \<Rightarrow> Some (Inl e)
      | Some (Inr (v, k)) \<Rightarrow> Some (Inr (Looked_up v k, t)))"
| "step t (Insert key val) =
     (case insert t key val of
        None \<Rightarrow> None
      | Some (Inl e) \<Rightarrow> Some (Inl e)
      | Some (Inr (b, t')) \<Rightarrow> Some (Inr (Inserted b, t')))"
| "step t (Remove key) =
     (case remove t key of
        None \<Rightarrow> None
      | Some (Inl e) \<Rightarrow> Some (Inl e)
      | Some (Inr (b, t')) \<Rightarrow> Some (Inr (Removed b, t')))"
| "step t (For_each body context) =
     (case for_each t body context of
        None \<Rightarrow> None
      | Some (Inl e) \<Rightarrow> Some (Inl e)
      | Some (Inr t') \<Rightarrow> Some (Inr (Visited, t')))"

text \<open>
  Running a list of operations stops at the first one that faults or does not return;
  otherwise it gives what each operation returned and the final table.
\<close>

fun run :: "UntypedTable \<Rightarrow> operation list \<Rightarrow> (fault + observation list \<times> UntypedTable) option"
  where
  "run t [] = Some (Inr ([], t))"
| "run t (x # xs) =
     (case step t x of
        None \<Rightarrow> None
      | Some (Inl e) \<Rightarrow> Some (Inl e)
      | Some (Inr (ob, t')) \<Rightarrow>
          (case run t' xs of
             None \<Rightarrow> None
           | Some (Inl e) \<Rightarrow> Some (Inl e)
           | Some (Inr (obs, t'')) \<Rightarrow> Some (Inr (ob # obs, t''))))"

definition returned :: "(fault + observation list \<times> UntypedTable) option \<Rightarrow>
  (fault + observation list) option" where
  "returned r = map_option (map_sum id fst) r"

section \<open>Chains and bucket placement\<close>

text \<open>
  \<open>is_chain mem p ns\<close>: following \<open>next\<close> from the pointer \<open>p\<close> visits exactly the
  nodes \<open>ns\<close>, in this order, and then reaches \<open>nullptr\<close>.
\<close>

fun is_chain :: "(nat \<Rightarrow> HashNode) \<Rightarrow> nat option \<Rightarrow> nat list \<Rightarrow> bool" where
  "is_chain mem p [] = (p = None)"
| "is_chain mem p (a # as) = (p = Some a \<and> is_chain mem (node_next (mem a)) as)"

text \<open>The test \<open>insert\<close> applies to a node of the key's bucket.\<close>

definition entry_matches :: "UntypedTable \<Rightarrow> 64 word \<Rightarrow> nat \<Rightarrow> bool" where
  "entry_matches t key n =
     (node_hash_value (nodes t n) = m_hash t key \<and>
      call_compare (m_compare t) (node_key (nodes t n)) key)"

text \<open>The head of the key's bucket; a table without a bucket array has no chains.\<close>

definition bucket_head :: "UntypedTable \<Rightarrow> 64 word \<Rightarrow> nat option" where
  "bucket_head t key =
     (case m_buckets t of
        None \<Rightarrow> None
      | Some buckets \<Rightarrow> buckets (unat (m_hash t key AND m_bucket_mask t)))"

text \<open>
  The mask belongs to the width, and the first node of every bucket carries a hash
  that selects this bucket.
\<close>

definition heads_in_place :: "UntypedTable \<Rightarrow> bool" where
  "heads_in_place t =
     (case m_buckets t of
        None \<Rightarrow> True
      | Some buckets \<Rightarrow>
          m_bucket_mask t = push_bit (m_bucket_mask_width t) 1 - 1 \<and>
          list_all (\<lambda>i. case buckets i of
                           None \<Rightarrow> True
                         | Some a \<Rightarrow> unat (node_hash_value (nodes t a)) mod
                                      2 ^ m_bucket_mask_width t = i)
            [0..<2 ^ m_bucket_mask_width t])"

text \<open>The callback calls a removal or replacement of node \<open>n\<close> makes.\<close>

definition removal_calls :: "UntypedTable \<Rightarrow> nat \<Rightarrow> event list" where
  "removal_calls t n =
     (case m_did_remove_key t of
        Some f \<Rightarrow> [Key_removed f (node_key (nodes t n))]
      | None \<Rightarrow> []) @
     (case m_did_remove_value t of
        Some f \<Rightarrow> [Value_removed f (node_value (nodes t n))]
      | None \<Rightarrow> [])"

section \<open>Example tables\<close>

text \<open>
  The table that \<open>insert(3, 10)\<close> builds from a new table with the identity as hash
  function, both removal callbacks and an arena whose next free block is 4: the bucket
  array takes block 4, the node block 5, and the node heads bucket 3.
\<close>

definition table_one_entry :: UntypedTable where
  "table_one_entry =
     (UntypedTable_custom (Some (\<lambda>k. k)) None (Some 7) (Some 8) (Some \<lparr>heap_top = 4\<rparr>))
       \<lparr>m_heap := Some \<lparr>heap_top = 6\<rparr>,
        m_buckets := Some ((\<lambda>_. None)(3 := Some 5)),
        m_count := 1,
        m_bucket_mask := 15,
        m_bucket_mask_width := 4,
        nodes := (\<lambda>_. zero_node)
          (5 := \<lparr>node_next = None, node_key = 3, node_value = 10, node_hash_value = 3\<rparr>)\<rparr>"




text \<open>
  A new table with the identity as hash function and pointer comparison; the keys 1 to
  65, each inserted with the value \<open>key + 100\<close>; lookups of the keys 1 to 64.
\<close>

definition identity_hash_table :: UntypedTable where
  "identity_hash_table = UntypedTable_custom (Some (\<lambda>key. key)) None None None None"

definition insert_1_to_65 :: "operation list" where
  "insert_1_to_65 = map (\<lambda>n. Insert (of_nat n) (of_nat n + 100)) [1..<66]"

definition lookup_1_to_64 :: "operation list" where
  "lookup_1_to_64 = map (\<lambda>n. Lookup (of_nat n) False) [1..<65]"

text \<open>A new table that compares keys through a custom equality function.\<close>

definition custom_compare_table :: UntypedTable where
  "custom_compare_table =
     UntypedTable_custom None (Some (Custom_compare (\<lambda>a b. a = b))) None None None"

section \<open>Properties of attribute references\<close>

lemma KindMask_and_not [simp]: "(x AND NOT KindMask) AND KindMask = 0"
  by (simp add: KindMask_def word_bw_assocs)

lemma kind_values_masked:
  "Direct AND KindMask = Direct" "Indirect AND KindMask = Indirect"
  "NilAttribute AND KindMask = NilAttribute"
  by (simp_all add: Direct_def Indirect_def NilAttribute_def KindMask_def)

lemma kind_values_no_pointer_bits:
  "Direct AND NOT KindMask = 0" "Indirect AND NOT KindMask = 0"
  "NilAttribute AND NOT KindMask = 0"
  by (simp_all add: Direct_def Indirect_def NilAttribute_def KindMask_def)

lemma kind_values_distinct:
  "Direct \<noteq> Indirect" "Direct \<noteq> NilAttribute" "Indirect \<noteq> NilAttribute"
  "Indirect \<noteq> 0" "NilAttribute \<noteq> 0"
  by (simp_all add: Direct_def Indirect_def NilAttribute_def)

lemma kind_with_kind:
  assumes "k AND KindMask = k"
  shows "kind (with_kind a k) = k"
  using assms by (simp add: kind_def with_kind_def word_ao_dist)

lemma pointer_bits_with_kind:
  assumes "k AND NOT KindMask = 0"
  shows "raw_value (with_kind a k) AND NOT KindMask = raw_value a AND NOT KindMask"
  using assms by (simp add: with_kind_def word_ao_dist word_bw_assocs)

lemma split_raw_value: "(x :: 32 word) = (x AND NOT KindMask) OR (x AND KindMask)"
  by (simp add: word_ao_dist2 [symmetric])

lemma raw_value_zero_iff:
  "raw_value a = 0 \<longleftrightarrow> raw_value a AND NOT KindMask = 0 \<and> kind a = Direct"
proof
  assume "raw_value a = 0"
  then show "raw_value a AND NOT KindMask = 0 \<and> kind a = Direct"
    by (simp add: kind_def Direct_def)
next
  assume "raw_value a AND NOT KindMask = 0 \<and> kind a = Direct"
  then have "(raw_value a AND NOT KindMask) OR (raw_value a AND KindMask) = 0"
    by (simp add: kind_def Direct_def)
  then show "raw_value a = 0"
    using split_raw_value [of "raw_value a"] by simp
qed

text \<open>
  C4, as the code has it: \<open>operator bool\<close> compares the raw value with zero. The Nil
  reference converts to false, and so does every reference of kind Nil or Indirect; a
  Direct reference converts to true exactly when its pointer bits are zero.
\<close>

theorem operator_bool_tests_zero:
  "\<not> operator_bool make_nil \<and>
   (is_nil a \<longrightarrow> \<not> operator_bool a) \<and>
   (is_indirect a \<longrightarrow> \<not> operator_bool a) \<and>
   (is_direct a \<longrightarrow> operator_bool a = (raw_value a AND NOT KindMask = 0))"
proof -
  have "\<not> operator_bool make_nil"
    by (simp add: operator_bool_def make_nil_def NilAttribute_def)
  moreover have "is_nil a \<longrightarrow> \<not> operator_bool a"
    using kind_values_distinct
    by (auto simp: is_nil_def operator_bool_def raw_value_zero_iff)
  moreover have "is_indirect a \<longrightarrow> \<not> operator_bool a"
    using kind_values_distinct
    by (auto simp: is_indirect_def operator_bool_def raw_value_zero_iff)
  moreover have "is_direct a \<longrightarrow> operator_bool a = (raw_value a AND NOT KindMask = 0)"
    by (auto simp: is_direct_def operator_bool_def raw_value_zero_iff)
  ultimately show ?thesis by blast
qed

theorem operator_bool_tests_zero_witness:
  "is_direct (from_node 0) \<and> operator_bool (from_node 0) \<and>
   is_indirect (from_indirect_node 0x1000) \<and> \<not> operator_bool (from_indirect_node 0x1000) \<and>
   is_nil make_nil \<and> \<not> operator_bool make_nil"
proof -
  have d: "is_direct (from_node 0)"
    by (simp add: is_direct_def kind_def from_node_def Direct_def)
  have i: "is_indirect (from_indirect_node 0x1000)"
    by (simp add: is_indirect_def kind_def from_indirect_node_def Indirect_def KindMask_def)
  have n: "is_nil make_nil"
    by (simp add: is_nil_def kind_def make_nil_def NilAttribute_def KindMask_def)
  have z: "raw_value (from_node 0) AND NOT KindMask = 0"
    by (simp add: from_node_def Direct_def)
  show ?thesis
    using d i n z operator_bool_tests_zero [of "from_node 0"]
      operator_bool_tests_zero [of "from_indirect_node 0x1000"]
      operator_bool_tests_zero [of make_nil]
    by simp
qed

text \<open>
  C4 as stated fails: a Direct reference to the node at offset 0x1000 and an Indirect
  reference to the indirect node at offset 0x1000 both convert to false.
\<close>

theorem operator_bool_valid_reference_false:
  "is_direct (from_node 0x1000) \<and> \<not> operator_bool (from_node 0x1000) \<and>
   is_indirect (from_indirect_node 0x1000) \<and> \<not> operator_bool (from_indirect_node 0x1000)"
  by (simp add: is_direct_def is_indirect_def kind_def from_node_def from_indirect_node_def
      operator_bool_def Direct_def Indirect_def KindMask_def)



text \<open>
  C8: for each of the three kinds \<open>k\<close>, \<open>with_kind\<close> followed by \<open>kind\<close> gives \<open>k\<close>, the
  pointer bits are those of the original, and \<open>to_node\<close> (after \<open>with_kind Direct\<close>) and
  \<open>to_indirect_node\<close> (after \<open>with_kind Indirect\<close>) dereference the original's offset.
\<close>

theorem with_kind_then_kind:
  assumes "k \<in> {Direct, Indirect, NilAttribute}"
  shows "kind (with_kind a k) = k \<and>
         raw_value (with_kind a k) AND NOT KindMask = raw_value a AND NOT KindMask \<and>
         to_node (with_kind a Direct) = Inr (raw_value a AND NOT KindMask) \<and>
         to_indirect_node (with_kind a Indirect) = Inr (raw_value a AND NOT KindMask)"
proof -
  from assms have k: "k AND KindMask = k" "k AND NOT KindMask = 0"
    using kind_values_masked kind_values_no_pointer_bits by auto
  have "to_node (with_kind a Direct) = Inr (raw_value a AND NOT KindMask)"
    by (simp add: to_node_def is_direct_def kind_with_kind kind_values_masked
        pointer_bits_with_kind kind_values_no_pointer_bits)
  moreover have "to_indirect_node (with_kind a Indirect) = Inr (raw_value a AND NOT KindMask)"
    by (simp add: to_indirect_node_def is_indirect_def kind_with_kind kind_values_masked
        pointer_bits_with_kind kind_values_no_pointer_bits)
  ultimately show ?thesis
    using k by (simp add: kind_with_kind pointer_bits_with_kind)
qed

theorem with_kind_then_kind_witness:
  "kind (with_kind (from_node 0x1000) Indirect) = Indirect \<and>
   raw_value (with_kind (from_node 0x1000) Indirect) AND NOT KindMask = 0x1000 \<and>
   to_indirect_node (with_kind (from_node 0x1000) Indirect) = Inr 0x1000"
proof -
  have m: "Indirect \<in> {Direct, Indirect, NilAttribute}" by simp
  have p: "raw_value (from_node 0x1000) AND NOT KindMask = 0x1000"
    by (simp add: from_node_def Direct_def KindMask_def)
  show ?thesis
    using with_kind_then_kind [OF m, of "from_node 0x1000"] p by simp
qed

section \<open>Properties of the table\<close>

subsection \<open>Chains, replacement and growth\<close>

lemma notify_removed_eq:
  "notify_removed t n = t\<lparr>calls := calls t @ removal_calls t n\<rparr>"
  by (simp add: notify_removed_def removal_calls_def split: option.splits)

lemma ensure_heap_fields [simp]:
  "m_bucket_mask_width (ensure_heap t) = m_bucket_mask_width t"
  "m_buckets (ensure_heap t) = m_buckets t"
  "m_bucket_mask (ensure_heap t) = m_bucket_mask t"
  "m_count (ensure_heap t) = m_count t"
  "m_spare_node (ensure_heap t) = m_spare_node t"
  "nodes (ensure_heap t) = nodes t"
  by (simp_all add: ensure_heap_def)

lemma heap_alloc_fields [simp]:
  "m_bucket_mask_width (snd (heap_alloc t)) = m_bucket_mask_width t"
  "m_buckets (snd (heap_alloc t)) = m_buckets t"
  "m_bucket_mask (snd (heap_alloc t)) = m_bucket_mask t"
  "m_count (snd (heap_alloc t)) = m_count t"
  "m_spare_node (snd (heap_alloc t)) = m_spare_node t"
  "nodes (snd (heap_alloc t)) = nodes t"
  by (simp_all add: heap_alloc_def Heap_alloc_def split: option.splits)

lemma shift_left_int_small:
  assumes "n \<le> 30"
  shows "shift_left_int 1 n = 2 ^ n"
proof -
  have "(2::int) ^ n \<le> 2 ^ 30"
    using assms by (intro power_increasing) simp_all
  then have "((2::int) ^ n + 2 ^ 31) mod 2 ^ 32 = 2 ^ n + 2 ^ 31"
    by (intro mod_pos_pos_trivial) simp_all
  then show ?thesis
    by (simp add: shift_left_int_def)
qed

lemma insert_replace_chain:
  "is_chain (nodes t) p ns \<Longrightarrow>
   insert_replace t key val (m_hash t key) p =
     (case find (entry_matches t key) ns of
        None \<Rightarrow> Some None
      | Some n \<Rightarrow>
          Some (Some (t\<lparr>calls := calls t @ removal_calls t n,
                        nodes := (nodes t)(n := (nodes t n)\<lparr>node_key := key, node_value := val\<rparr>)\<rparr>)))"
proof (induction ns arbitrary: p)
  case Nil
  then show ?case by (subst insert_replace.simps) simp
next
  case (Cons a as)
  from Cons.prems have p: "p = Some a" and rest: "is_chain (nodes t) (node_next (nodes t a)) as"
    by simp_all
  show ?case
  proof (cases "entry_matches t key a")
    case True
    then show ?thesis
      unfolding p
      by (subst insert_replace.simps) (simp add: entry_matches_def notify_removed_eq)
  next
    case False
    have "insert_replace t key val (m_hash t key) (Some a) =
          insert_replace t key val (m_hash t key) (node_next (nodes t a))"
      using False unfolding entry_matches_def by (subst insert_replace.simps) auto
    then show ?thesis
      unfolding p using False Cons.IH [OF rest] by simp
  qed
qed

lemma is_chain_update_payload:
  "is_chain mem p ns \<Longrightarrow>
   is_chain (mem(n := (mem n)\<lparr>node_key := k, node_value := v\<rparr>)) p ns"
  by (induction ns arbitrary: p) auto

lemma mask_and_unat: "unat ((push_bit w 1 - 1) AND (h :: 64 word)) = unat h mod 2 ^ w"
proof -
  have "(push_bit w 1 - 1 :: 64 word) = mask w"
    by (simp add: mask_eq_exp_minus_1)
  then have "(push_bit w 1 - 1) AND h = take_bit w h"
    by (simp only: take_bit_eq_mask and.commute)
  moreover have "unat (take_bit w h) = take_bit w (unat h)"
    by (rule unsigned_take_bit_eq)
  ultimately show ?thesis
    by (simp only: take_bit_eq_mod)
qed

lemma mod_power_Suc_mod: "(x mod 2 ^ Suc w) mod 2 ^ w = x mod (2 ^ w :: nat)"
  by (simp add: mod_mod_cancel)

lemma redistribute_chain_head:
  assumes "new_buckets (unat (bm AND node_hash_value (mem a))) = None"
  shows "redistribute_chain bm (Some a) mem new_buckets =
           Some (mem(a := (mem a)\<lparr>node_next := None\<rparr>),
                 new_buckets(unat (bm AND node_hash_value (mem a)) := Some a))"
  using assms
  apply (subst redistribute_chain.simps)
  apply (simp add: Let_def)
  apply (subst redistribute_chain.simps)
  apply simp
  done

lemma redistribute_chain_null:
  "redistribute_chain bm None mem new_buckets = Some (mem, new_buckets)"
  by (subst redistribute_chain.simps) simp

lemma redistribute_buckets_returns:
  assumes "distinct is"
    and "\<forall>i\<in>set is. \<forall>a. old i = Some a \<longrightarrow> unat (node_hash_value (mem a)) mod 2 ^ w = i"
    and "\<forall>j. new_buckets j \<noteq> None \<longrightarrow> j mod 2 ^ w \<notin> set is"
  shows "\<exists>r. redistribute_buckets (push_bit (Suc w) 1 - 1) old is mem new_buckets = Some r"
  using assms
proof (induction "is" arbitrary: mem new_buckets)
  case Nil
  then show ?case by simp
next
  case (Cons i "is")
  show ?case
  proof (cases "old i")
    case None
    have "\<exists>r. redistribute_buckets (push_bit (Suc w) 1 - 1) old is mem new_buckets = Some r"
      using Cons.prems by (intro Cons.IH) auto
    then show ?thesis
      unfolding redistribute_buckets.simps None redistribute_chain_null by simp
  next
    case (Some a)
    let ?bm = "push_bit (Suc w) 1 - 1 :: 64 word"
    let ?nb = "unat (?bm AND node_hash_value (mem a))"
    let ?mem = "mem(a := (mem a)\<lparr>node_next := None\<rparr>)"
    let ?new = "new_buckets(?nb := Some a)"
    have h: "unat (node_hash_value (mem a)) mod 2 ^ w = i"
      using Cons.prems(2) Some by simp
    have nb: "?nb mod 2 ^ w = i"
      using h by (simp only: mask_and_unat mod_power_Suc_mod)
    have free: "new_buckets ?nb = None"
      using Cons.prems(3) nb by (metis list.set_intros(1))
    have step: "redistribute_chain ?bm (old i) mem new_buckets = Some (?mem, ?new)"
      unfolding Some using free by (rule redistribute_chain_head)
    have "\<exists>r. redistribute_buckets ?bm old is ?mem ?new = Some r"
    proof (intro Cons.IH)
      show "distinct is" using Cons.prems(1) by simp
      show "\<forall>i\<in>set is. \<forall>a. old i = Some a \<longrightarrow> unat (node_hash_value (?mem a)) mod 2 ^ w = i"
        using Cons.prems(2) by simp
      show "\<forall>j. ?new j \<noteq> None \<longrightarrow> j mod 2 ^ w \<notin> set is"
        using Cons.prems(1,3) nb by auto
    qed
    then show ?thesis
      unfolding redistribute_buckets.simps step by simp
  qed
qed

lemma grow_buckets_at_cap:
  "m_bucket_mask_width t > 30 \<Longrightarrow> grow_buckets t = Some (Inr t)"
  by (simp add: grow_buckets_def)

lemma grow_buckets_returns:
  assumes "heads_in_place t" and "m_buckets t = Some buckets"
    and "m_bucket_mask_width t \<noteq> 30"
  shows "\<exists>t'. grow_buckets t = Some (Inr t') \<and> m_buckets t' \<noteq> None \<and>
              m_count t' = m_count t"
proof (cases "m_bucket_mask_width t > 30")
  case True
  then show ?thesis using assms(2) by (simp add: grow_buckets_at_cap)
next
  case False
  let ?w = "m_bucket_mask_width t"
  from False assms(3) have small: "Suc ?w \<le> 30" by simp
  have fits: "\<not> shift_left_int 1 (Suc ?w) < 0"
    by (simp add: shift_left_int_small [OF small])
  have heads: "\<forall>i\<in>set [0..<2 ^ ?w]. \<forall>a. buckets i = Some a \<longrightarrow>
                 unat (node_hash_value (nodes t a)) mod 2 ^ ?w = i"
    using assms by (auto simp: heads_in_place_def list_all_iff)
  have "\<exists>r. redistribute_buckets (push_bit (Suc ?w) 1 - 1) buckets [0..<2 ^ ?w] (nodes t)
               (\<lambda>_. None) = Some r"
    by (rule redistribute_buckets_returns [OF _ heads]) simp_all
  then obtain mem' new' where
    "redistribute_buckets (push_bit (Suc ?w) 1 - 1) buckets [0..<2 ^ ?w] (nodes t)
       (\<lambda>_. None) = Some (mem', new')"
    by auto
  then show ?thesis
    using False assms(2) fits by (simp add: grow_buckets_def Let_def)
qed

lemma insert_new_returns:
  assumes "heads_in_place t" and "m_buckets t = Some buckets"
    and "m_bucket_mask_width t \<noteq> 30"
  shows "\<exists>t'. insert_new t key val hash_value = Some (Inr (True, t')) \<and>
              m_count t' = m_count t + 1"
proof -
  obtain t1 where
    g: "(if m_count t + 1 > growth_threshold (m_bucket_mask_width t) then grow_buckets t
         else Some (Inr t)) = Some (Inr t1)"
    and b: "m_buckets t1 \<noteq> None" and c: "m_count t1 = m_count t"
    using grow_buckets_returns [OF assms] assms(2)
    by (cases "m_count t + 1 > growth_threshold (m_bucket_mask_width t)") auto
  from b obtain b1 where b1: "m_buckets t1 = Some b1" by auto
  show ?thesis
    unfolding insert_new_def g
    by (cases "m_spare_node (ensure_heap t1)")
      (simp_all add: Let_def split_beta b1 c)
qed

subsection \<open>Insertion relative to the chain of the bucket\<close>

text \<open>The example table is the one that the first insertion builds.\<close>

lemma one_entry_reached:
  "insert (UntypedTable_custom (Some (\<lambda>k. k)) None (Some 7) (Some 8) (Some \<lparr>heap_top = 4\<rparr>)) 3 10 =
     Some (Inr (True, table_one_entry))"
  apply (simp add: insert_def create_buckets_def UntypedTable_custom_def Let_def ensure_heap_def heap_alloc_def
    Heap_alloc_def new_Heap_def initial_bucket_mask_width_def insert_new_def table_one_entry_def)
  apply (subst insert_replace.simps)
  apply (simp add: insert_def create_buckets_def UntypedTable_custom_def Let_def ensure_heap_def heap_alloc_def
    Heap_alloc_def new_Heap_def initial_bucket_mask_width_def insert_new_def table_one_entry_def fun_eq_iff
    growth_threshold_def shift_left_int_def)
  done

lemma create_buckets_heads:
  "m_buckets t = None \<Longrightarrow> heads_in_place (create_buckets t) \<and>
     m_buckets (create_buckets t) = Some (\<lambda>_. None) \<and>
     m_count (create_buckets t) = m_count t \<and>
     m_hash (create_buckets t) = m_hash t"
  by (simp add: create_buckets_def heads_in_place_def Let_def split_beta
      initial_bucket_mask_width_def list_all_iff ensure_heap_def heap_alloc_def Heap_alloc_def
      split: option.splits)

text \<open>
  What \<open>insert\<close> does relative to the nodes linked in the key's bucket. Let the chain
  of the bucket be the nodes \<open>ns\<close>, in a table whose bucket heads are in place and whose
  width is not 30. Then \<open>insert\<close> returns, with true exactly when no node of the chain
  matches the key. When a node matches, the table after the call is the table before it
  with the key and the value of the first matching node overwritten and with the
  callback calls for the old key and the old value (those that are set, key first)
  appended; the chain of the bucket is the same list of nodes. When none matches, the
  count grows by one. A node that \<open>remove\<close> failed to unlink is a node of the chain.
\<close>

lemma insert_on_chain:
  assumes "is_chain (nodes t) (bucket_head t key) ns" and "heads_in_place t"
    and "m_bucket_mask_width t \<noteq> 30"
  shows "\<exists>t'. insert t key val = Some (Inr (\<not> list_ex (entry_matches t key) ns, t')) \<and>
           (case find (entry_matches t key) ns of
              None \<Rightarrow> m_count t' = m_count t + 1
            | Some n \<Rightarrow>
                t' = t\<lparr>calls := calls t @ removal_calls t n,
                       nodes := (nodes t)
                         (n := (nodes t n)\<lparr>node_key := key, node_value := val\<rparr>)\<rparr> \<and>
                is_chain (nodes t') (bucket_head t' key) ns)"
proof (cases "m_buckets t")
  case None
  with assms(1) have ns: "ns = []"
    by (cases ns) (simp_all add: bucket_head_def)
  let ?t = "create_buckets t"
  from create_buckets_heads [OF None] have h: "heads_in_place ?t"
    and b: "m_buckets ?t = Some (\<lambda>_. None)" and c: "m_count ?t = m_count t"
    by simp_all
  have w: "m_bucket_mask_width ?t \<noteq> 30"
    using None by (simp add: create_buckets_def Let_def split_beta initial_bucket_mask_width_def)
  from insert_new_returns [OF h b w, of key val "m_hash ?t key"] obtain t' where
    "insert_new ?t key val (m_hash ?t key) = Some (Inr (True, t'))" "m_count t' = m_count ?t + 1"
    by auto
  moreover have "insert_replace ?t key val (m_hash ?t key) None = Some None"
    by (subst insert_replace.simps) simp
  ultimately show ?thesis
    using None b c by (simp add: insert_def ns Let_def)
next
  case (Some buckets)
  have head: "bucket_head t key = buckets (unat (m_hash t key AND m_bucket_mask t))"
    by (simp add: bucket_head_def Some)
  note loop = insert_replace_chain [OF assms(1), of key val, unfolded head]
  show ?thesis
  proof (cases "find (entry_matches t key) ns")
    case None
    then have no: "\<not> list_ex (entry_matches t key) ns"
      by (simp add: find_None_iff list_ex_iff)
    from insert_new_returns [OF assms(2) Some assms(3), of key val "m_hash t key"] obtain t' where
      "insert_new t key val (m_hash t key) = Some (Inr (True, t'))" "m_count t' = m_count t + 1"
      by auto
    then show ?thesis
      using None no loop by (simp add: insert_def Some Let_def)
  next
    case (Some n)
    then have yes: "list_ex (entry_matches t key) ns"
      by (auto simp: find_Some_iff list_ex_iff)
    let ?t' = "t\<lparr>calls := calls t @ removal_calls t n,
                  nodes := (nodes t)(n := (nodes t n)\<lparr>node_key := key, node_value := val\<rparr>)\<rparr>"
    have "is_chain ((nodes t)(n := (nodes t n)\<lparr>node_key := key, node_value := val\<rparr>))
            (bucket_head t key) ns"
      using assms(1) by (rule is_chain_update_payload)
    moreover have "bucket_head ?t' key = bucket_head t key"
      by (simp add: bucket_head_def split: option.splits)
    ultimately have "is_chain (nodes ?t') (bucket_head ?t' key) ns"
      by simp
    then show ?thesis
      using Some yes loop \<open>m_buckets t = Some buckets\<close> by (simp add: insert_def Let_def)
  qed
qed

lemma insert_on_chain_example:
  "(\<exists>t'. insert table_one_entry 3 11 = Some (Inr (False, t')) \<and>
         calls t' = [Key_removed 7 3, Value_removed 8 10] \<and>
         node_key (nodes t' 5) = 3 \<and> node_value (nodes t' 5) = 11 \<and>
         is_chain (nodes t') (bucket_head t' 3) [5]) \<and>
   (\<exists>t'. insert table_one_entry 2 20 = Some (Inr (True, t')) \<and> m_count t' = 2)"
proof -
  have c1: "is_chain (nodes table_one_entry) (bucket_head table_one_entry 3) [5]"
    by (simp add: table_one_entry_def bucket_head_def UntypedTable_custom_def)
  have c2: "is_chain (nodes table_one_entry) (bucket_head table_one_entry 2) []"
    by (simp add: table_one_entry_def bucket_head_def UntypedTable_custom_def)
  have h: "heads_in_place table_one_entry"
    by code_simp
  have w: "m_bucket_mask_width table_one_entry \<noteq> 30"
    by (simp add: table_one_entry_def)
  have m: "entry_matches table_one_entry 3 5"
    by (simp add: table_one_entry_def entry_matches_def UntypedTable_custom_def
        pointer_compare_def)
  have f1: "find (entry_matches table_one_entry 3) [5] = Some 5"
    and e1: "list_ex (entry_matches table_one_entry 3) [5] = True"
    using m by simp_all
  have f2: "find (entry_matches table_one_entry 2) [] = None"
    and e2: "list_ex (entry_matches table_one_entry 2) [] = False"
    by simp_all
  have r: "removal_calls table_one_entry 5 = [Key_removed 7 3, Value_removed 8 10]"
    by (simp add: table_one_entry_def removal_calls_def UntypedTable_custom_def)
  have n: "nodes table_one_entry 5 =
      \<lparr>node_next = None, node_key = 3, node_value = 10, node_hash_value = 3\<rparr>"
      "calls table_one_entry = []" "m_count table_one_entry = 1"
    by (simp_all add: table_one_entry_def UntypedTable_custom_def)
  from insert_on_chain [OF c1 h w, of 11, unfolded f1 e1 option.case]
  obtain t' where t': "insert table_one_entry 3 11 = Some (Inr (\<not> True, t'))"
    "t' = table_one_entry\<lparr>calls := calls table_one_entry @ removal_calls table_one_entry 5,
            nodes := (nodes table_one_entry)
              (5 := (nodes table_one_entry 5)\<lparr>node_key := 3, node_value := 11\<rparr>)\<rparr>"
    "is_chain (nodes t') (bucket_head t' 3) [5]"
    by blast
  from t'(2) have "calls t' = [Key_removed 7 3, Value_removed 8 10]"
    "node_key (nodes t' 5) = 3" "node_value (nodes t' 5) = 11"
    by (simp_all add: r n)
  with t'(1,3) have first: "\<exists>t'. insert table_one_entry 3 11 = Some (Inr (False, t')) \<and>
         calls t' = [Key_removed 7 3, Value_removed 8 10] \<and>
         node_key (nodes t' 5) = 3 \<and> node_value (nodes t' 5) = 11 \<and>
         is_chain (nodes t') (bucket_head t' 3) [5]"
    by simp
  from insert_on_chain [OF c2 h w, of 20, unfolded f2 e2 option.case]
  have "\<exists>t'. insert table_one_entry 2 20 = Some (Inr (True, t')) \<and> m_count t' = 2"
    by (simp add: n numeral_2_eq_2)
  with first show ?thesis by simp
qed


subsection \<open>Empty tables and construction\<close>

text \<open>
  C9: when \<open>_count\<close> is zero, \<open>lookup\<close> returns null and stores null through
  \<open>found_key_out\<close> when it is given, \<open>remove\<close> returns false and \<open>for_each\<close> calls
  nothing; all three return without a fault, whatever the bucket array is.
\<close>

theorem empty_table_operations:
  assumes "m_count t = 0"
  shows "lookup t key found_key_out = Some (Inr (0, if found_key_out then Some 0 else None)) \<and>
         remove t key = Some (Inr (False, t)) \<and>
         for_each t body context = Some (Inr t)"
  using assms by (simp add: lookup_def lookup_not_found_def remove_def for_each_def)

theorem empty_table_operations_witness:
  "m_count UntypedTable_default = 0 \<and> m_buckets UntypedTable_default = None \<and>
   lookup UntypedTable_default 7 True = Some (Inr (0, Some 0)) \<and>
   remove UntypedTable_default 7 = Some (Inr (False, UntypedTable_default)) \<and>
   for_each UntypedTable_default 1 0 = Some (Inr UntypedTable_default)"
proof -
  have c: "m_count UntypedTable_default = 0" by (simp add: UntypedTable_default_def)
  have b: "m_buckets UntypedTable_default = None" by (simp add: UntypedTable_default_def)
  show ?thesis
    using c b empty_table_operations [OF c, of 7 True 1 0] by simp
qed

text \<open>
  C10: the default constructor and the parameterized constructor called with null for
  the hash function, the equality function, both callbacks and the arena build the same
  table (pointer hashing, pointer comparison with the fast path, no callbacks, ownership
  of the arena), so every sequence of operations gives the same results on both.
\<close>

theorem default_is_custom_with_nulls:
  "UntypedTable_default = UntypedTable_custom None None None None None \<and>
   m_hash (UntypedTable_custom None None None None None) = pointer_hash \<and>
   m_compare (UntypedTable_custom None None None None None) = Pointer_compare \<and>
   m_compare_by_pointer (UntypedTable_custom None None None None None) \<and>
   m_did_remove_key (UntypedTable_custom None None None None None) = None \<and>
   m_did_remove_value (UntypedTable_custom None None None None None) = None \<and>
   m_is_heap_owner (UntypedTable_custom None None None None None) \<and>
   (\<forall>ops. run UntypedTable_default ops = run (UntypedTable_custom None None None None None) ops)"
  by (simp add: UntypedTable_default_def UntypedTable_custom_def)


subsection \<open>Removal and growth on concrete tables\<close>

text \<open>
  C1 fails on the code. On a default-constructed table, after \<open>insert(2, 20)\<close> and
  \<open>insert(1, 10)\<close> the node of key 1 is the first of its chain, whatever the hash
  function is; \<open>remove(1)\<close> returns true and \<open>lookup(1)\<close> still returns 10. With the
  keys 1, 17 and 33 in one chain (33 first), removing the middle key 17 works, while
  after \<open>remove(33)\<close> the key 33 is still found and the key 1 behind it is lost.
\<close>

theorem remove_head_then_lookup_finds:
  "returned (run UntypedTable_default [Insert 2 20, Insert 1 10, Remove 1, Lookup 1 False]) =
     Some (Inr [Inserted True, Inserted True, Removed True, Looked_up 10 None]) \<and>
   returned (run identity_hash_table
      [Insert 1 10, Insert 17 170, Insert 33 330, Remove 17, Lookup 17 False,
       Remove 33, Lookup 33 False, Lookup 1 False]) =
     Some (Inr [Inserted True, Inserted True, Inserted True, Removed True, Looked_up 0 None,
                Removed True, Looked_up 330 None, Looked_up 0 None])"
proof -
  have "case returned (run UntypedTable_default
            [Insert 2 20, Insert 1 10, Remove 1, Lookup 1 False]) of
          Some (Inr obs) \<Rightarrow> obs = [Inserted True, Inserted True, Removed True, Looked_up 10 None]
        | _ \<Rightarrow> False"
    by code_simp
  moreover have "case returned (run identity_hash_table
            [Insert 1 10, Insert 17 170, Insert 33 330, Remove 17, Lookup 17 False,
             Remove 33, Lookup 33 False, Lookup 1 False]) of
          Some (Inr obs) \<Rightarrow>
            obs = [Inserted True, Inserted True, Inserted True, Removed True, Looked_up 0 None,
                   Removed True, Looked_up 330 None, Looked_up 0 None]
        | _ \<Rightarrow> False"
    by code_simp
  ultimately show ?thesis
    by (simp split: option.splits sum.splits)
qed

text \<open>
  C2 fails on the code. The keys 1 to 65 are inserted into a new table with the identity
  as hash function; the 65th insertion grows the 16 buckets to 32. Afterwards the keys
  1 to 48 are not found: only the first node of each old chain was relinked.
\<close>

theorem growth_loses_entries:
  "returned (run identity_hash_table (insert_1_to_65 @ lookup_1_to_64)) =
     Some (Inr (replicate 65 (Inserted True) @ replicate 48 (Looked_up 0 None) @
                map (\<lambda>n. Looked_up (of_nat n + 100) None) [49..<65]))"
proof -
  have "case returned (run identity_hash_table (insert_1_to_65 @ lookup_1_to_64)) of
          Some (Inr obs) \<Rightarrow>
            obs = replicate 65 (Inserted True) @ replicate 48 (Looked_up 0 None) @
                  map (\<lambda>n. Looked_up (of_nat n + 100) None) [49..<65]
        | _ \<Rightarrow> False"
    by code_simp
  then show ?thesis
    by (simp split: option.splits sum.splits)
qed

text \<open>
  C3 fails on the code. On a default-constructed table holding the key 1, \<open>remove(2)\<close>
  walks the chain of its bucket and reaches the end of \<open>remove_ptr\<close>, where no value is
  returned. In both comparison modes a second \<open>remove(1)\<close> returns true again when the
  node of key 1 was the first of its chain.
\<close>

theorem remove_absent_key_not_false:
  "returned (run UntypedTable_default [Insert 1 10, Remove 2]) = Some (Inl Missing_return) \<and>
   returned (run custom_compare_table [Insert 2 20, Insert 1 10, Remove 1, Remove 1]) =
     Some (Inr [Inserted True, Inserted True, Removed True, Removed True]) \<and>
   returned (run UntypedTable_default [Insert 2 20, Insert 1 10, Remove 1, Remove 1]) =
     Some (Inr [Inserted True, Inserted True, Removed True, Removed True])"
proof -
  have "case returned (run UntypedTable_default [Insert 1 10, Remove 2]) of
          Some (Inl Missing_return) \<Rightarrow> True
        | _ \<Rightarrow> False"
    by code_simp
  moreover have "case returned (run custom_compare_table
            [Insert 2 20, Insert 1 10, Remove 1, Remove 1]) of
          Some (Inr obs) \<Rightarrow> obs = [Inserted True, Inserted True, Removed True, Removed True]
        | _ \<Rightarrow> False"
    by code_simp
  moreover have "case returned (run UntypedTable_default
            [Insert 2 20, Insert 1 10, Remove 1, Remove 1]) of
          Some (Inr obs) \<Rightarrow> obs = [Inserted True, Inserted True, Removed True, Removed True]
        | _ \<Rightarrow> False"
    by code_simp
  ultimately show ?thesis
    by (simp split: option.splits sum.splits fault.splits)
qed

text \<open>
  C6 fails on the code. On a default-constructed table, after \<open>insert(1, 10)\<close> and
  \<open>remove(1)\<close> no entry is live (the removal returned true and the count is 0), but
  the node of key 1 is still the first of its chain: \<open>insert(1, 11)\<close> overwrites it
  and returns false, the count stays 0 and \<open>lookup(1)\<close> returns null. In the other
  direction, once growth has dropped key 1 (inserted and never removed) from the table
  of the keys 1 to 65, \<open>insert(1, 7)\<close> returns true.
\<close>

theorem insert_after_remove_returns_false:
  "returned (run UntypedTable_default [Insert 1 10, Remove 1, Insert 1 11, Lookup 1 False]) =
     Some (Inr [Inserted True, Removed True, Inserted False, Looked_up 0 None]) \<and>
   returned (run identity_hash_table (insert_1_to_65 @ [Insert 1 7])) =
     Some (Inr (replicate 65 (Inserted True) @ [Inserted True]))"
proof -
  have "case returned (run UntypedTable_default
            [Insert 1 10, Remove 1, Insert 1 11, Lookup 1 False]) of
          Some (Inr obs) \<Rightarrow> obs = [Inserted True, Removed True, Inserted False, Looked_up 0 None]
        | _ \<Rightarrow> False"
    by code_simp
  moreover have "case returned (run identity_hash_table (insert_1_to_65 @ [Insert 1 7])) of
          Some (Inr obs) \<Rightarrow> obs = replicate 65 (Inserted True) @ [Inserted True]
        | _ \<Rightarrow> False"
    by code_simp
  ultimately show ?thesis
    by (simp split: option.splits sum.splits)
qed

subsection \<open>The cap on the width\<close>


end
